theory Spec2Isabelle
  imports Main
begin

section \<open>Python values, exceptions and the world the script runs in\<close>

text \<open>
  The values that flow through \<^verbatim>\<open>eazyml_upload_extract_information.py\<close>: command
  line strings, \<^verbatim>\<open>None\<close>, and the JSON-shaped answers of the remote client library
  (so no tuples). A dictionary is an association list with string keys, read with
  \<open>map_of\<close> (first binding wins); no branch of the script depends on a float, and
  floats are left out.
\<close>

datatype pyval =
    PNone
  | PBool bool
  | PInt int
  | PStr string
  | PList "pyval list"
  | PDict "(string \<times> pyval) list"

text \<open>The exceptions the script can raise on its own (none of them is caught).\<close>

datatype exn =
    KeyError string
  | TypeError
  | UnboundLocalError string
  | NameError string
  | FileNotFoundError string
  | JSONDecodeError

datatype 'a res = Ret 'a | Raise exn

text \<open>The calls made to the client library \<^verbatim>\<open>ez\<close>, with their arguments in order;
  \<^verbatim>\<open>ez.ez_auth\<close> is called either with the keyword \<^verbatim>\<open>password\<close> or with the keyword
  \<^verbatim>\<open>api_key\<close>.\<close>

datatype remote_call =
    Ez_auth_password pyval pyval
  | Ez_auth_api_key pyval pyval
  | Ez_config pyval pyval
  | Ez_upload_document pyval string pyval pyval
  | Ez_extract_information pyval pyval pyval pyval

text \<open>A line printed on standard output: the text (with its \<^verbatim>\<open>%s\<close> holes) and the values
  printed into it.\<close>

datatype out = Out string "pyval list"

text \<open>The world a call runs in: the files on disk (path to text; every path that exists
  is a regular file that can be read and written), the lines printed so far, and the remote
  calls made so far, oldest first. A remote call always comes back with a value.\<close>

record world =
  files :: "string \<rightharpoonup> string"
  stdout :: "out list"
  calls :: "remote_call list"

text \<open>What the script takes from outside its own text: the \<^verbatim>\<open>json\<close> module, the remote
  service behind \<^verbatim>\<open>ez\<close>, the module-level name \<^verbatim>\<open>query\<close> that \<^verbatim>\<open>eazyml_upload\<close>
  reads as a global (\<open>None\<close> when the name is not bound), and the directories that
  exist (the script creates and removes none).\<close>

record env =
  json_dumps :: "pyval \<Rightarrow> string"
  json_load :: "string \<Rightarrow> pyval option"
  remote :: "remote_call \<Rightarrow> pyval"
  query_global :: "pyval option"
  dir_exists :: "string \<Rightarrow> bool"

type_synonym 'a io = "world \<Rightarrow> 'a res \<times> world"

definition ret :: "'a \<Rightarrow> 'a io" where
  "ret x w = (Ret x, w)"

definition raise :: "exn \<Rightarrow> 'a io" where
  "raise e w = (Raise e, w)"

definition bnd :: "'a io \<Rightarrow> ('a \<Rightarrow> 'b io) \<Rightarrow> 'b io" where
  "bnd m f w = (case m w of (Ret x, w') \<Rightarrow> f x w' | (Raise e, w') \<Rightarrow> (Raise e, w'))"

definition lift :: "exn + 'a \<Rightarrow> 'a io" where
  "lift r w = (case r of Inl e \<Rightarrow> (Raise e, w) | Inr x \<Rightarrow> (Ret x, w))"

definition print :: "string \<Rightarrow> pyval list \<Rightarrow> unit io" where
  "print t vs w = (Ret (), w\<lparr>stdout := stdout w @ [Out t vs]\<rparr>)"

definition path_exists :: "string \<Rightarrow> bool io" where
  "path_exists p w = (Ret (p \<in> dom (files w)), w)"

text \<open>\<^verbatim>\<open>os.path.dirname\<close>: the path up to its last slash, without trailing slashes unless
  it consists of slashes only; empty for a bare file name, which lies in the working
  directory.\<close>

definition dirname :: "string \<Rightarrow> string" where
  "dirname p =
     (let head = rev (dropWhile (\<lambda>c. c \<noteq> CHR ''/'') (rev p)) in
      if head \<noteq> [] \<and> filter (\<lambda>c. c \<noteq> CHR ''/'') head \<noteq> []
      then rev (dropWhile (\<lambda>c. c = CHR ''/'') (rev head))
      else head)"

definition can_create :: "env \<Rightarrow> string \<Rightarrow> bool" where
  "can_create E p = (dirname p = [] \<or> dir_exists E (dirname p))"

text \<open>\<^verbatim>\<open>open(p, "w")\<close> followed by the write: it raises \<^verbatim>\<open>FileNotFoundError\<close> when the
  directory of \<open>p\<close> does not exist.\<close>

definition write_file :: "env \<Rightarrow> string \<Rightarrow> string \<Rightarrow> unit io" where
  "write_file E p t w =
     (if can_create E p then (Ret (), w\<lparr>files := (files w)(p \<mapsto> t)\<rparr>)
      else (Raise (FileNotFoundError p), w))"

text \<open>\<^verbatim>\<open>json.load(open(p))\<close>: the file's text, parsed.\<close>

definition load_file :: "env \<Rightarrow> string \<Rightarrow> pyval io" where
  "load_file E p w =
     (case files w p of
        None \<Rightarrow> (Raise (FileNotFoundError p), w)
      | Some t \<Rightarrow> (case json_load E t of
                     None \<Rightarrow> (Raise JSONDecodeError, w)
                   | Some v \<Rightarrow> (Ret v, w)))"

definition call :: "env \<Rightarrow> remote_call \<Rightarrow> pyval io" where
  "call E c w = (Ret (remote E c), w\<lparr>calls := calls w @ [c]\<rparr>)"

text \<open>\<^verbatim>\<open>v[k]\<close> with a string key, \<^verbatim>\<open>k in v\<close>, truth value, and \<^verbatim>\<open>v is True\<close>.\<close>

fun subscript :: "pyval \<Rightarrow> string \<Rightarrow> exn + pyval" where
  "subscript (PDict d) k = (case map_of d k of None \<Rightarrow> Inl (KeyError k) | Some v \<Rightarrow> Inr v)"
| "subscript _ k = Inl TypeError"

fun is_infix :: "string \<Rightarrow> string \<Rightarrow> bool" where
  "is_infix k [] = (k = [])"
| "is_infix k (c # cs) = (take (length k) (c # cs) = k \<or> is_infix k cs)"

fun contains :: "string \<Rightarrow> pyval \<Rightarrow> exn + bool" where
  "contains k (PDict d) = Inr (k \<in> fst ` set d)"
| "contains k (PList xs) = Inr (PStr k \<in> set xs)"
| "contains k (PStr s) = Inr (is_infix k s)"
| "contains k _ = Inl TypeError"

fun truthy :: "pyval \<Rightarrow> bool" where
  "truthy PNone = False"
| "truthy (PBool b) = b"
| "truthy (PInt i) = (i \<noteq> 0)"
| "truthy (PStr s) = (s \<noteq> [])"
| "truthy (PList xs) = (xs \<noteq> [])"
| "truthy (PDict d) = (d \<noteq> [])"

definition is_True :: "pyval \<Rightarrow> bool" where
  "is_True v = (v = PBool True)"

text \<open>The truth value of a two-item tuple, which \<^verbatim>\<open>eazyml_extract_information\<close> returns:
  a tuple is false only when it is empty.\<close>

definition truthy_tuple2 :: "pyval \<times> pyval \<Rightarrow> bool" where
  "truthy_tuple2 t = ([fst t, snd t] \<noteq> [])"

section \<open>The json module\<close>

text \<open>
  \<^verbatim>\<open>json.dumps(obj, indent=4)\<close> and \<^verbatim>\<open>json.load\<close> as the documentation of the Python
  standard library describes them, on the values above.
\<close>

text \<open>Integers are written in decimal, with a minus sign when negative.\<close>

definition digit_char :: "nat \<Rightarrow> char" where
  "digit_char n = char_of (48 + n)"

fun digits :: "nat \<Rightarrow> string" where
  "digits n = (if n < 10 then [digit_char n] else digits (n div 10) @ [digit_char (n mod 10)])"

declare digits.simps [simp del]

definition dump_int :: "int \<Rightarrow> string" where
  "dump_int i = (if i < 0 then CHR ''-'' # digits (nat (- i)) else digits (nat i))"

text \<open>Strings are written between double quotes; with \<^verbatim>\<open>ensure_ascii\<close> (the default) every
  character outside the printable ASCII range, the quote and the backslash are escaped,
  by the short escapes where JSON has one and by \<^verbatim>\<open>\u00XX\<close> otherwise.\<close>

definition hex_char :: "nat \<Rightarrow> char" where
  "hex_char n = (if n < 10 then char_of (48 + n) else char_of (87 + n))"

definition escape_char :: "char \<Rightarrow> string" where
  "escape_char c =
     (if c = CHR 0x22 then [CHR 0x5C, CHR 0x22]
      else if c = CHR 0x5C then [CHR 0x5C, CHR 0x5C]
      else if c = CHR 0x0A then [CHR 0x5C, CHR ''n'']
      else if c = CHR 0x0D then [CHR 0x5C, CHR ''r'']
      else if c = CHR 0x09 then [CHR 0x5C, CHR ''t'']
      else if c = CHR 0x08 then [CHR 0x5C, CHR ''b'']
      else if c = CHR 0x0C then [CHR 0x5C, CHR ''f'']
      else if 32 \<le> (of_char c :: nat) \<and> (of_char c :: nat) < 127 then [c]
      else [CHR 0x5C, CHR ''u'', CHR ''0'', CHR ''0'',
            hex_char ((of_char c :: nat) div 16), hex_char ((of_char c :: nat) mod 16)])"

definition dump_str :: "string \<Rightarrow> string" where
  "dump_str s = CHR 0x22 # concat (map escape_char s) @ [CHR 0x22]"

text \<open>With \<^verbatim>\<open>indent=4\<close> the item separator is a comma, the key separator a colon and a
  space, every item of a non-empty array or object starts on a new line indented by four
  spaces per nesting level, and empty containers are written \<^verbatim>\<open>[]\<close> and \<^verbatim>\<open>{}\<close>.\<close>

definition newline_indent :: "nat \<Rightarrow> string" where
  "newline_indent lvl = CHR 0x0A # replicate (4 * lvl) CHR '' ''"

fun dumps_at :: "nat \<Rightarrow> pyval \<Rightarrow> string"
  and dump_items :: "nat \<Rightarrow> pyval list \<Rightarrow> string"
  and dump_members :: "nat \<Rightarrow> (string \<times> pyval) list \<Rightarrow> string" where
  "dumps_at lvl PNone = ''null''"
| "dumps_at lvl (PBool b) = (if b then ''true'' else ''false'')"
| "dumps_at lvl (PInt i) = dump_int i"
| "dumps_at lvl (PStr s) = dump_str s"
| "dumps_at lvl (PList xs) =
     (if xs = [] then ''[]''
      else ''['' @ newline_indent (Suc lvl) @ dump_items (Suc lvl) xs @ newline_indent lvl @ '']'')"
| "dumps_at lvl (PDict kvs) =
     (if kvs = [] then ''{}''
      else ''{'' @ newline_indent (Suc lvl) @ dump_members (Suc lvl) kvs @ newline_indent lvl @ ''}'')"
| "dump_items lvl [] = []"
| "dump_items lvl (x # xs) =
     dumps_at lvl x @ (if xs = [] then [] else '','' @ newline_indent lvl @ dump_items lvl xs)"
| "dump_members lvl [] = []"
| "dump_members lvl (kv # kvs) =
     dump_str (fst kv) @ '': '' @ dumps_at lvl (snd kv)
       @ (if kvs = [] then [] else '','' @ newline_indent lvl @ dump_members lvl kvs)"

definition py_dumps :: "pyval \<Rightarrow> string" where
  "py_dumps v = dumps_at 0 v"

text \<open>
  \<^verbatim>\<open>json.load\<close>: a recursive-descent reading of the JSON grammar, with whitespace allowed
  around values and separators. The recursion is bounded by a counter that starts at the
  length of the text. Strings are read in strict mode (no raw control characters); an
  escape \<^verbatim>\<open>\uXXXX\<close> beyond the 8-bit characters and a number with a fraction or an
  exponent (a float) have no counterpart among the values and give \<open>None\<close>, as does a
  text that is not JSON. A key that occurs twice in an object keeps its first position and
  its last value, as in a Python dictionary.
\<close>

definition is_ws :: "char \<Rightarrow> bool" where
  "is_ws c = (c = CHR '' '' \<or> c = CHR 0x0A \<or> c = CHR 0x09 \<or> c = CHR 0x0D)"

definition skip_ws :: "string \<Rightarrow> string" where
  "skip_ws cs = dropWhile is_ws cs"

definition is_digit :: "char \<Rightarrow> bool" where
  "is_digit c = (48 \<le> (of_char c :: nat) \<and> (of_char c :: nat) \<le> 57)"

definition digit_val :: "char \<Rightarrow> nat" where
  "digit_val c = of_char c - 48"

definition hex_val :: "char \<Rightarrow> nat option" where
  "hex_val c =
     (let n = (of_char c :: nat) in
      if 48 \<le> n \<and> n \<le> 57 then Some (n - 48)
      else if 97 \<le> n \<and> n \<le> 102 then Some (n - 87)
      else if 65 \<le> n \<and> n \<le> 70 then Some (n - 55)
      else None)"

definition hex4 :: "string \<Rightarrow> char option" where
  "hex4 hs =
     (case map hex_val hs of
        [Some a, Some b, Some c, Some d] \<Rightarrow>
          (let n = ((a * 16 + b) * 16 + c) * 16 + d in
           if n < 256 then Some (char_of n) else None)
      | _ \<Rightarrow> None)"

definition unescape :: "char \<Rightarrow> char option" where
  "unescape e =
     (if e = CHR 0x22 then Some (CHR 0x22)
      else if e = CHR 0x5C then Some (CHR 0x5C)
      else if e = CHR ''/'' then Some (CHR ''/'')
      else if e = CHR ''b'' then Some (CHR 0x08)
      else if e = CHR ''f'' then Some (CHR 0x0C)
      else if e = CHR ''n'' then Some (CHR 0x0A)
      else if e = CHR ''r'' then Some (CHR 0x0D)
      else if e = CHR ''t'' then Some (CHR 0x09)
      else None)"

definition cons_str :: "char \<Rightarrow> (string \<times> string) option \<Rightarrow> (string \<times> string) option" where
  "cons_str c r = (case r of None \<Rightarrow> None | Some (s, rest) \<Rightarrow> Some (c # s, rest))"

fun parse_str :: "string \<Rightarrow> (string \<times> string) option" where
  "parse_str [] = None"
| "parse_str (c # cs) =
     (if c = CHR 0x22 then Some ([], cs)
      else if c = CHR 0x5C then
        (case cs of
           [] \<Rightarrow> None
         | e # r \<Rightarrow>
             if e = CHR ''u'' then
               (case hex4 (take 4 r) of
                  None \<Rightarrow> None
                | Some ch \<Rightarrow> cons_str ch (parse_str (drop 4 r)))
             else
               (case unescape e of
                  None \<Rightarrow> None
                | Some ch \<Rightarrow> cons_str ch (parse_str r)))
      else if (of_char c :: nat) < 32 then None
      else cons_str c (parse_str cs))"

definition parse_int :: "string \<Rightarrow> (pyval \<times> string) option" where
  "parse_int cs =
     (let neg = (cs \<noteq> [] \<and> hd cs = CHR ''-'');
          r = (if neg then tl cs else cs);
          ds = takeWhile is_digit r;
          rest = dropWhile is_digit r
      in if ds = [] then None
         else if length ds > 1 \<and> hd ds = CHR ''0'' then None
         else if rest \<noteq> [] \<and> (hd rest = CHR ''.'' \<or> hd rest = CHR ''e'' \<or> hd rest = CHR ''E'')
           then None
         else Some (PInt ((if neg then - 1 else 1)
                          * int (foldl (\<lambda>a c. 10 * a + digit_val c) 0 ds)), rest))"

fun dict_set :: "string \<Rightarrow> pyval \<Rightarrow> (string \<times> pyval) list \<Rightarrow> (string \<times> pyval) list" where
  "dict_set k v [] = [(k, v)]"
| "dict_set k v (p # ps) = (if fst p = k then (k, v) # ps else p # dict_set k v ps)"

definition make_dict :: "(string \<times> pyval) list \<Rightarrow> pyval" where
  "make_dict kvs = PDict (foldl (\<lambda>d kv. dict_set (fst kv) (snd kv) d) [] kvs)"

fun parse_value :: "nat \<Rightarrow> string \<Rightarrow> (pyval \<times> string) option"
  and parse_items :: "nat \<Rightarrow> string \<Rightarrow> (pyval list \<times> string) option"
  and parse_members :: "nat \<Rightarrow> string \<Rightarrow> ((string \<times> pyval) list \<times> string) option" where
  "parse_value 0 cs = None"
| "parse_value (Suc n) cs =
     (case cs of
        [] \<Rightarrow> None
      | c # r \<Rightarrow>
          if c = CHR ''n'' then (if take 3 r = ''ull'' then Some (PNone, drop 3 r) else None)
          else if c = CHR ''t'' then
            (if take 3 r = ''rue'' then Some (PBool True, drop 3 r) else None)
          else if c = CHR ''f'' then
            (if take 4 r = ''alse'' then Some (PBool False, drop 4 r) else None)
          else if c = CHR 0x22 then
            (case parse_str r of None \<Rightarrow> None | Some (s, r') \<Rightarrow> Some (PStr s, r'))
          else if c = CHR ''['' then
            (case skip_ws r of
               [] \<Rightarrow> None
             | d # r' \<Rightarrow>
                 if d = CHR '']'' then Some (PList [], r')
                 else (case parse_items n (d # r') of
                         None \<Rightarrow> None
                       | Some (xs, r'') \<Rightarrow> Some (PList xs, r'')))
          else if c = CHR ''{'' then
            (case skip_ws r of
               [] \<Rightarrow> None
             | d # r' \<Rightarrow>
                 if d = CHR ''}'' then Some (PDict [], r')
                 else (case parse_members n (d # r') of
                         None \<Rightarrow> None
                       | Some (kvs, r'') \<Rightarrow> Some (make_dict kvs, r'')))
          else parse_int cs)"
| "parse_items 0 cs = None"
| "parse_items (Suc n) cs =
     (case parse_value n cs of
        None \<Rightarrow> None
      | Some (x, r) \<Rightarrow>
          (case skip_ws r of
             [] \<Rightarrow> None
           | d # r' \<Rightarrow>
               if d = CHR '','' then
                 (case parse_items n (skip_ws r') of
                    None \<Rightarrow> None
                  | Some (xs, r'') \<Rightarrow> Some (x # xs, r''))
               else if d = CHR '']'' then Some ([x], r')
               else None))"
| "parse_members 0 cs = None"
| "parse_members (Suc n) cs =
     (case cs of
        [] \<Rightarrow> None
      | c # r \<Rightarrow>
          if c \<noteq> CHR 0x22 then None
          else
            (case parse_str r of
               None \<Rightarrow> None
             | Some (k, r1) \<Rightarrow>
                 (case skip_ws r1 of
                    [] \<Rightarrow> None
                  | d # r2 \<Rightarrow>
                      if d \<noteq> CHR '':'' then None
                      else
                        (case parse_value n (skip_ws r2) of
                           None \<Rightarrow> None
                         | Some (v, r3) \<Rightarrow>
                             (case skip_ws r3 of
                                [] \<Rightarrow> None
                              | e # r4 \<Rightarrow>
                                  if e = CHR '','' then
                                    (case parse_members n (skip_ws r4) of
                                       None \<Rightarrow> None
                                     | Some (kvs, r5) \<Rightarrow> Some ((k, v) # kvs, r5))
                                  else if e = CHR ''}'' then Some ([(k, v)], r4)
                                  else None)))))"

definition py_load :: "string \<Rightarrow> pyval option" where
  "py_load t =
     (case parse_value (Suc (length t)) (skip_ws t) of
        None \<Rightarrow> None
      | Some (v, r) \<Rightarrow> if skip_ws r = [] then Some v else None)"

text \<open>The depth of recursion that reading a value back takes; values in which the keys of
  every dictionary are distinct (every Python dictionary is such); and the two shapes of
  text that follow, respectively begin, a value in the output of \<open>py_dumps\<close>.\<close>

fun need :: "pyval \<Rightarrow> nat"
  and need_items :: "pyval list \<Rightarrow> nat"
  and need_members :: "(string \<times> pyval) list \<Rightarrow> nat" where
  "need (PList xs) = Suc (need_items xs)"
| "need (PDict kvs) = Suc (need_members kvs)"
| "need PNone = 1"
| "need (PBool b) = 1"
| "need (PInt i) = 1"
| "need (PStr s) = 1"
| "need_items [] = 0"
| "need_items (x # xs) = Suc (max (need x) (need_items xs))"
| "need_members [] = 0"
| "need_members (kv # kvs) = Suc (max (need (snd kv)) (need_members kvs))"

fun well_formed :: "pyval \<Rightarrow> bool"
  and well_formed_items :: "pyval list \<Rightarrow> bool"
  and well_formed_members :: "(string \<times> pyval) list \<Rightarrow> bool" where
  "well_formed (PList xs) = well_formed_items xs"
| "well_formed (PDict kvs) = (distinct (map fst kvs) \<and> well_formed_members kvs)"
| "well_formed PNone = True"
| "well_formed (PBool b) = True"
| "well_formed (PInt i) = True"
| "well_formed (PStr s) = True"
| "well_formed_items [] = True"
| "well_formed_items (x # xs) = (well_formed x \<and> well_formed_items xs)"
| "well_formed_members [] = True"
| "well_formed_members (kv # kvs) = (well_formed (snd kv) \<and> well_formed_members kvs)"

definition stops :: "string \<Rightarrow> bool" where
  "stops rest = (rest = [] \<or> hd rest = CHR '','' \<or> hd rest = CHR 0x0A)"

definition starts :: "string \<Rightarrow> bool" where
  "starts s = (s \<noteq> [] \<and> \<not> is_ws (hd s) \<and> hd s \<noteq> CHR '']'' \<and> hd s \<noteq> CHR ''}'')"


section \<open>The script\<close>

definition AUTH_FILE :: string where
  "AUTH_FILE = ''authentication.json''"

definition UPLOAD_FILE :: string where
  "UPLOAD_FILE = ''upload_document.json''"

definition EXTRACT_FILE :: string where
  "EXTRACT_FILE = ''extract_information.json''"

text \<open>The module-level name \<^verbatim>\<open>query\<close>, read inside \<^verbatim>\<open>eazyml_upload\<close>.\<close>

definition read_query_global :: "env \<Rightarrow> pyval io" where
  "read_query_global E =
     (case query_global E of None \<Rightarrow> raise (NameError ''query'') | Some q \<Rightarrow> ret q)"

text \<open>\<^verbatim>\<open>eazyml_upload\<close>, lines 19 to 73. The elapsed time printed at line 63 is left out
  of the printed values.\<close>

definition upload_tail :: "env \<Rightarrow> pyval \<Rightarrow> pyval \<Rightarrow> pyval \<Rightarrow> pyval io" where
  "upload_tail E resp index_name index =
     bnd (print ''Indexing document time: %.2f secs'' []) (\<lambda>_.
     bnd (lift (subscript resp ''indexed'')) (\<lambda>ix.
     bnd (print ''A Boolean flag indicating whether document is stored (indexed) is: %s'' [ix]) (\<lambda>_.
     bnd (print ''Likely next steps:'' []) (\<lambda>_.
     bnd (read_query_global E) (\<lambda>q.
     bnd (print ''    python eazyml_upload_extract_information.py --query %s --index_name %s --extract_information''
            [q, index_name]) (\<lambda>_.
     bnd (print ''Please provide an existing index name that you mentioned while uploading a document.'' []) (\<lambda>_.
     ret index)))))))"

definition upload_from_cache :: "env \<Rightarrow> string \<Rightarrow> pyval io" where
  "upload_from_cache E dump_file =
     bnd (load_file E dump_file) (\<lambda>resp.
     bnd (lift (subscript resp ''indexed'')) (\<lambda>index.
     bnd (print ''Returning from cache'' [PStr dump_file]) (\<lambda>_.
     ret index)))"

definition upload_success ::
  "env \<Rightarrow> pyval \<Rightarrow> string \<Rightarrow> pyval \<Rightarrow> string \<Rightarrow> pyval io" where
  "upload_success E resp document_path index_name prefix_name =
     bnd (print ''The document is indexed successfully to EazyML from path: %s''
            [PStr document_path]) (\<lambda>_.
     bnd (lift (subscript resp ''indexed'')) (\<lambda>index.
     bnd (write_file E (prefix_name @ ''_'' @ UPLOAD_FILE) (json_dumps E resp)) (\<lambda>_.
     bnd (print ''The response is stored in %s'' [PStr (prefix_name @ ''_'' @ UPLOAD_FILE)]) (\<lambda>_.
     upload_tail E resp index_name index))))"

definition upload_failure :: "env \<Rightarrow> pyval \<Rightarrow> pyval \<Rightarrow> pyval io" where
  "upload_failure E resp index_name =
     bnd (lift (subscript resp ''message'')) (\<lambda>msg.
     bnd (print ''Upload document error: %s'' [msg]) (\<lambda>_.
     upload_tail E resp index_name (PBool False)))"

definition upload_from_remote ::
  "env \<Rightarrow> pyval \<Rightarrow> string \<Rightarrow> pyval \<Rightarrow> pyval \<Rightarrow> string \<Rightarrow> pyval io" where
  "upload_from_remote E token document_path index_name options prefix_name =
     bnd (print ''Indexing the document ...'' []) (\<lambda>_.
     bnd (call E (Ez_upload_document token document_path index_name options)) (\<lambda>resp.
     bnd (print ''%s'' [resp]) (\<lambda>_.
     bnd (lift (subscript resp ''success'')) (\<lambda>ok.
     if is_True ok then upload_success E resp document_path index_name prefix_name
     else upload_failure E resp index_name))))"

definition eazyml_upload ::
  "env \<Rightarrow> pyval \<Rightarrow> string \<Rightarrow> pyval \<Rightarrow> pyval \<Rightarrow> string \<Rightarrow> pyval io" where
  "eazyml_upload E token document_path index_name overwrite prefix_name =
     (let options = PDict [(''overwrite'', overwrite)] in
      bnd (path_exists document_path) (\<lambda>doc_there.
      if \<not> doc_there then
        bnd (print (''Document doesn'' @ [CHR 0x27] @ ''t exist - %s'') [PStr document_path]) (\<lambda>_. ret PNone)
      else
        (let dump_file = prefix_name @ ''_'' @ UPLOAD_FILE in
         bnd (path_exists dump_file) (\<lambda>cached.
         if cached then upload_from_cache E dump_file
         else upload_from_remote E token document_path index_name options prefix_name))))"

text \<open>\<^verbatim>\<open>eazyml_extract_information\<close>, lines 76 to 123. The local variable \<^verbatim>\<open>answer\<close>
  is bound only on some paths; reading it unbound raises \<^verbatim>\<open>UnboundLocalError\<close>.\<close>

definition read_local :: "string \<Rightarrow> pyval option \<Rightarrow> pyval io" where
  "read_local name v = (case v of None \<Rightarrow> raise (UnboundLocalError name) | Some x \<Rightarrow> ret x)"

definition extract_from_cache :: "env \<Rightarrow> string \<Rightarrow> (pyval \<times> pyval) io" where
  "extract_from_cache E dump_file =
     bnd (load_file E dump_file) (\<lambda>resp.
     bnd (lift (contains ''answer'' resp)) (\<lambda>has.
     bnd (if has then bnd (lift (subscript resp ''answer'')) (\<lambda>a. ret (Some a))
          else ret None) (\<lambda>answer.
     bnd (print ''Returning from cache'' [PStr dump_file]) (\<lambda>_.
     bnd (read_local ''answer'' answer) (\<lambda>a.
     ret (a, resp))))))"

definition extract_from_remote ::
  "env \<Rightarrow> pyval \<Rightarrow> pyval \<Rightarrow> pyval \<Rightarrow> string \<Rightarrow> (pyval \<times> pyval) io" where
  "extract_from_remote E token query index_name prefix_name =
     bnd (print ''Extracting Information '' []) (\<lambda>_.
     bnd (call E (Ez_extract_information token query index_name (PDict []))) (\<lambda>resp.
     bnd (lift (subscript resp ''success'')) (\<lambda>ok.
     if is_True ok then
       bnd (print ''Information extracted successfully'' []) (\<lambda>_.
       bnd (write_file E (prefix_name @ ''_'' @ EXTRACT_FILE) (json_dumps E resp)) (\<lambda>_.
       bnd (print ''The response is stored in %s'' [PStr (prefix_name @ ''_'' @ EXTRACT_FILE)]) (\<lambda>_.
       bnd (print ''Information Extracting time: %.2f secs'' []) (\<lambda>_.
       bnd (lift (subscript resp ''answer'')) (\<lambda>answer.
       bnd (print ''The answer retrieved for provided query from the document is: %s'' [answer]) (\<lambda>_.
       ret (answer, resp)))))))
     else
       bnd (lift (subscript resp ''message'')) (\<lambda>msg.
       bnd (print ''Information Extraction error: %s'' [msg]) (\<lambda>_.
       ret (PNone, PNone))))))"

definition eazyml_extract_information ::
  "env \<Rightarrow> pyval \<Rightarrow> pyval \<Rightarrow> pyval \<Rightarrow> pyval \<Rightarrow> string \<Rightarrow> (pyval \<times> pyval) io" where
  "eazyml_extract_information E token api_name query index_name prefix_name =
     (if api_name = PStr ''extract_information'' then
        (let dump_file = prefix_name @ ''_'' @ EXTRACT_FILE in
         bnd (path_exists dump_file) (\<lambda>cached.
         if cached then extract_from_cache E dump_file
         else extract_from_remote E token query index_name prefix_name))
      else
        bnd (read_local ''answer'' None) (\<lambda>a.
        bnd (read_local ''resp'' None) (\<lambda>resp.
        ret (a, resp))))"

text \<open>\<^verbatim>\<open>eazyml_auth\<close>, lines 137 to 173.\<close>

definition eazyml_auth :: "env \<Rightarrow> pyval \<Rightarrow> pyval \<Rightarrow> pyval \<Rightarrow> bool \<Rightarrow> pyval io" where
  "eazyml_auth E username api_key password store_info =
     (let content = PDict [(''username'', username), (''api_key'', api_key),
                           (''password'', password)] in
      bnd (if password \<noteq> PNone then call E (Ez_auth_password username password)
           else call E (Ez_auth_api_key username api_key)) (\<lambda>resp.
      bnd (lift (subscript resp ''success'')) (\<lambda>ok.
      if is_True ok then
        bnd (print ''Authentication successful'' []) (\<lambda>_.
        bnd (if store_info then
               bnd (write_file E AUTH_FILE (json_dumps E content)) (\<lambda>_.
               print ''Authentication information is stored in %s'' [PStr AUTH_FILE])
             else ret ()) (\<lambda>_.
        lift (subscript resp ''token'')))
      else
        bnd (lift (subscript resp ''message'')) (\<lambda>msg.
        bnd (print ''Authentication error: %s'' [msg]) (\<lambda>_.
        ret PNone)))))"

text \<open>\<^verbatim>\<open>flow\<close>, lines 176 to 232, one definition per commented block of the source. A
  block yields \<open>None\<close> (or \<open>False\<close>) when it executes a \<^verbatim>\<open>return\<close> of \<^verbatim>\<open>flow\<close>, so that
  the blocks after it are not run.\<close>

definition flow_auth :: "env \<Rightarrow> pyval \<Rightarrow> pyval \<Rightarrow> pyval option io" where
  "flow_auth E username api_key =
     (if truthy username \<and> truthy api_key then
        bnd (eazyml_auth E username api_key PNone True) (\<lambda>token. ret (Some token))
      else
        bnd (path_exists AUTH_FILE) (\<lambda>there.
        if there then
          bnd (load_file E AUTH_FILE) (\<lambda>auth_info.
          bnd (lift (subscript auth_info ''username'')) (\<lambda>u.
          bnd (lift (subscript auth_info ''api_key'')) (\<lambda>k.
          bnd (lift (subscript auth_info ''password'')) (\<lambda>p.
          bnd (eazyml_auth E u k p False) (\<lambda>token. ret (Some token))))))
        else
          bnd (print ''Please authenticate to proceed'' []) (\<lambda>_. ret None)))"

definition flow_config :: "env \<Rightarrow> pyval \<Rightarrow> pyval \<Rightarrow> bool io" where
  "flow_config E token config_file =
     (if truthy config_file then
        bnd (print ''Uploading the configuration file ...'' []) (\<lambda>_.
        bnd (call E (Ez_config token config_file)) (\<lambda>resp.
        bnd (lift (subscript resp ''success'')) (\<lambda>ok.
        if is_True ok then
          bnd (print ''Configuration file is uploaded successfully'' []) (\<lambda>_. ret True)
        else
          bnd (lift (subscript resp ''message'')) (\<lambda>msg.
          bnd (print ''Configuration file upload error: %s'' [msg]) (\<lambda>_. ret False)))))
      else ret True)"

definition flow_upload ::
  "env \<Rightarrow> pyval \<Rightarrow> string option \<Rightarrow> pyval \<Rightarrow> pyval \<Rightarrow> string \<Rightarrow> bool io" where
  "flow_upload E token document_path index_name overwrite prefix_name =
     (case document_path of
        None \<Rightarrow> ret True
      | Some p \<Rightarrow>
          if p = [] then ret True
          else if \<not> truthy index_name then
            bnd (print ''Please provide the index name'' []) (\<lambda>_. ret False)
          else
            bnd (eazyml_upload E token p index_name overwrite prefix_name) (\<lambda>index.
            ret (truthy index)))"

definition flow_extract ::
  "env \<Rightarrow> pyval \<Rightarrow> pyval \<Rightarrow> pyval \<Rightarrow> pyval \<Rightarrow> string \<Rightarrow> unit io" where
  "flow_extract E token api_name query index_name prefix_name =
     (if truthy api_name then
        if \<not> truthy query then
          print ''Please provide query to be asked in double quotes'' []
        else
          bnd (if \<not> truthy index_name then
                 print ''Please provide index_name that was mentioned while uploading document'' []
               else ret ()) (\<lambda>_.
          bnd (eazyml_extract_information E token api_name query index_name prefix_name) (\<lambda>success.
          if \<not> truthy_tuple2 success then ret () else ret ()))
      else ret ())"

definition flow ::
  "env \<Rightarrow> pyval \<Rightarrow> pyval \<Rightarrow> pyval \<Rightarrow> string \<Rightarrow> string option \<Rightarrow> pyval \<Rightarrow> pyval
     \<Rightarrow> pyval \<Rightarrow> pyval \<Rightarrow> unit io" where
  "flow E username api_key config_file prefix_name document_path index_name overwrite
        api_name query =
     bnd (flow_auth E username api_key) (\<lambda>t.
     case t of
       None \<Rightarrow> ret ()
     | Some token \<Rightarrow>
         bnd (flow_config E token config_file) (\<lambda>go.
         if \<not> go then ret ()
         else
           bnd (flow_upload E token document_path index_name overwrite prefix_name) (\<lambda>go'.
           if \<not> go' then ret ()
           else flow_extract E token api_name query index_name prefix_name)))"

section \<open>A concrete environment for running the script\<close>

text \<open>Sample answers of the remote service, and the \<^verbatim>\<open>json\<close> module as modelled above.\<close>

definition auth_ok :: pyval where
  "auth_ok = PDict [(''success'', PBool True), (''token'', PStr ''tok-1'')]"

definition upload_ok :: pyval where
  "upload_ok = PDict [(''success'', PBool True), (''indexed'', PBool True)]"

definition extract_ok :: pyval where
  "extract_ok = PDict [(''success'', PBool True), (''answer'', PStr ''Paris'')]"

definition extract_no_answer :: pyval where
  "extract_no_answer = PDict [(''success'', PBool True)]"

definition failure :: pyval where
  "failure = PDict [(''success'', PBool False), (''message'', PStr ''Invalid token'')]"

definition credentials :: pyval where
  "credentials = PDict [(''username'', PStr ''ann''), (''api_key'', PStr ''key-1''),
                        (''password'', PNone)]"

definition demo_dumps :: "pyval \<Rightarrow> string" where
  "demo_dumps = py_dumps"

definition demo_load :: "string \<Rightarrow> pyval option" where
  "demo_load = py_load"

text \<open>A service that accepts every call, and one that refuses every call.\<close>

fun accepting :: "remote_call \<Rightarrow> pyval" where
  "accepting (Ez_auth_password u p) = auth_ok"
| "accepting (Ez_auth_api_key u k) = auth_ok"
| "accepting (Ez_config t c) = PDict [(''success'', PBool True)]"
| "accepting (Ez_upload_document t d i opts) = upload_ok"
| "accepting (Ez_extract_information t q i opts) = extract_ok"

definition refusing :: "remote_call \<Rightarrow> pyval" where
  "refusing c = failure"

text \<open>A service whose refusal carries no message.\<close>

definition refusing_silently :: "remote_call \<Rightarrow> pyval" where
  "refusing_silently c = PDict [(''success'', PBool False)]"

definition demo_env :: "(remote_call \<Rightarrow> pyval) \<Rightarrow> env" where
  "demo_env srv = \<lparr>json_dumps = demo_dumps, json_load = demo_load, remote = srv,
                  query_global = Some PNone, dir_exists = (\<lambda>d. False)\<rparr>"

definition world0 :: "(string \<times> string) list \<Rightarrow> world" where
  "world0 fs = \<lparr>files = map_of fs, stdout = [], calls = []\<rparr>"

section \<open>Evaluation rules for the state-passing combinators\<close>

lemmas io_defs = ret_def raise_def bnd_def lift_def print_def path_exists_def
  write_file_def load_file_def call_def read_query_global_def read_local_def

lemmas upload_defs = Let_def eazyml_upload_def upload_from_cache_def upload_from_remote_def
  upload_success_def upload_failure_def upload_tail_def

lemmas extract_defs = Let_def eazyml_extract_information_def extract_from_cache_def
  extract_from_remote_def

lemmas flow_defs = flow_def flow_auth_def flow_config_def flow_upload_def flow_extract_def

lemma dirname_bare: "CHR ''/'' \<notin> set p \<Longrightarrow> dirname p = []"
  by (auto simp add: dirname_def dropWhile_eq_Nil_conv)

lemma can_create_bare [simp]: "CHR ''/'' \<notin> set p \<Longrightarrow> can_create E p"
  by (simp add: can_create_def dirname_bare)

lemma can_create_AUTH_FILE [simp]: "can_create E AUTH_FILE"
  by (simp add: AUTH_FILE_def)

lemmas demo_defs = demo_env_def world0_def refusing_def refusing_silently_def failure_def auth_ok_def upload_ok_def
  extract_ok_def extract_no_answer_def credentials_def AUTH_FILE_def UPLOAD_FILE_def
  EXTRACT_FILE_def is_True_def truthy_tuple2_def

section \<open>Round trip through the json module\<close>

lemma digit_char_props:
  "n < 10 \<Longrightarrow> is_digit (digit_char n) \<and> digit_val (digit_char n) = n"
  by (simp add: is_digit_def digit_val_def digit_char_def)

lemma digit_char_zero: "n < 10 \<Longrightarrow> digit_char n = CHR ''0'' \<longleftrightarrow> n = 0"
proof -
  assume "n < 10"
  then have "digit_val (digit_char n) = n" by (simp add: digit_char_props)
  moreover have "digit_val (CHR ''0'') = 0" by (simp add: digit_val_def)
  moreover have "digit_char 0 = CHR ''0''" by code_simp
  ultimately show ?thesis by metis
qed

lemma digits_all: "c \<in> set (digits n) \<Longrightarrow> is_digit c"
proof (induction n arbitrary: c rule: digits.induct)
  case (1 n)
  show ?case
  proof (cases "n < 10")
    case True
    with 1 show ?thesis by (simp add: digits.simps [of n] digit_char_props)
  next
    case False
    with 1 show ?thesis
      by (auto simp add: digits.simps [of n] digit_char_props)
  qed
qed

lemma digits_nonempty: "digits n \<noteq> []"
  by (simp add: digits.simps [of n])

lemma digits_value: "foldl (\<lambda>a c. 10 * a + digit_val c) 0 (digits n) = n"
proof (induction n rule: digits.induct)
  case (1 n)
  show ?case
  proof (cases "n < 10")
    case True
    then show ?thesis by (simp add: digits.simps [of n] digit_char_props)
  next
    case False
    with 1 show ?thesis by (simp add: digits.simps [of n] digit_char_props)
  qed
qed

lemma digits_hd: "0 < n \<Longrightarrow> hd (digits n) \<noteq> CHR ''0''"
proof (induction n rule: digits.induct)
  case (1 n)
  show ?case
  proof (cases "n < 10")
    case True
    with 1(2) show ?thesis by (simp add: digits.simps [of n] digit_char_zero)
  next
    case False
    then have "0 < n div 10" by simp
    with 1(1) False have "hd (digits (n div 10)) \<noteq> CHR ''0''" by simp
    with False show ?thesis
      by (simp add: digits.simps [of n] digits_nonempty)
  qed
qed

lemma digits_single: "length (digits n) > 1 \<Longrightarrow> 0 < n"
  by (cases "n = 0") (simp_all add: digits.simps [of 0])

lemma stops_not_digit: "stops rest \<Longrightarrow> rest = [] \<or> \<not> is_digit (hd rest)"
  by (auto simp add: stops_def is_digit_def)

lemma takeWhile_digits:
  assumes "rest = [] \<or> \<not> is_digit (hd rest)"
  shows "takeWhile is_digit (digits n @ rest) = digits n"
    and "dropWhile is_digit (digits n @ rest) = rest"
  using assms digits_all [of _ n]
  by (cases rest; simp add: takeWhile_append dropWhile_append)+

lemma parse_int_dump:
  assumes "stops rest"
  shows "parse_int (dump_int i @ rest) = Some (PInt i, rest)"
proof -
  have nd: "rest = [] \<or> \<not> is_digit (hd rest)" using assms by (rule stops_not_digit)
  have ne: "\<not> (rest \<noteq> [] \<and> (hd rest = CHR ''.'' \<or> hd rest = CHR ''e'' \<or> hd rest = CHR ''E''))"
    using assms by (auto simp add: stops_def)
  have lead: "\<not> (length (digits m) > 1 \<and> hd (digits m) = CHR ''0'')" for m
    using digits_hd [of m] digits_single [of m] by blast
  show ?thesis
  proof (cases "i < 0")
    case True
    then show ?thesis
      using ne lead [of "nat (- i)"]
      by (simp add: parse_int_def dump_int_def Let_def takeWhile_digits [OF nd]
          digits_nonempty digits_value)
  next
    case False
    have "is_digit (hd (digits (nat i)))"
      using digits_all [of "hd (digits (nat i))" "nat i"] digits_nonempty [of "nat i"] by simp
    then have "hd (digits (nat i)) \<noteq> CHR ''-''" by (auto simp add: is_digit_def)
    with False show ?thesis
      using ne lead [of "nat i"]
      by (simp add: parse_int_def dump_int_def Let_def takeWhile_digits [OF nd]
          digits_nonempty digits_value)
  qed
qed

lemma hex_val_hex_char: "m < 16 \<Longrightarrow> hex_val (hex_char m) = Some m"
  by (simp add: hex_val_def hex_char_def Let_def)

lemma hex4_escape:
  "hex4 [CHR ''0'', CHR ''0'', hex_char ((of_char c :: nat) div 16),
         hex_char ((of_char c :: nat) mod 16)] = Some c"
proof -
  have z: "hex_val (CHR ''0'') = Some 0" by (simp add: hex_val_def)
  have b: "(of_char c :: nat) < 256" by simp
  then have d: "(of_char c :: nat) div 16 < 16" by presburger
  have m: "(of_char c :: nat) mod 16 < 16" by simp
  have lt: "(of_char c :: nat) div 16 * 16 + (of_char c :: nat) mod 16 < 256"
    using b by simp
  show ?thesis
    using lt by (simp add: hex4_def z hex_val_hex_char [OF d] hex_val_hex_char [OF m])
qed

lemma parse_str_escape: "parse_str (escape_char c @ cs) = cons_str c (parse_str cs)"
proof -
  consider (quote) "c = CHR 0x22" | (bslash) "c = CHR 0x5C" | (nl) "c = CHR 0x0A"
    | (cr) "c = CHR 0x0D" | (tab) "c = CHR 0x09" | (bs) "c = CHR 0x08" | (ff) "c = CHR 0x0C"
    | (plain) "c \<notin> {CHR 0x22, CHR 0x5C, CHR 0x0A, CHR 0x0D, CHR 0x09, CHR 0x08, CHR 0x0C}"
        "32 \<le> (of_char c :: nat)" "(of_char c :: nat) < 127"
    | (other) "c \<notin> {CHR 0x22, CHR 0x5C, CHR 0x0A, CHR 0x0D, CHR 0x09, CHR 0x08, CHR 0x0C}"
        "\<not> (32 \<le> (of_char c :: nat) \<and> (of_char c :: nat) < 127)"
    by blast
  then show ?thesis
  proof cases
    case plain
    then show ?thesis by (simp add: escape_char_def)
  next
    case other
    then show ?thesis by (simp add: escape_char_def hex4_escape)
  qed (simp_all add: escape_char_def unescape_def)
qed

lemma parse_str_body:
  "parse_str (concat (map escape_char s) @ CHR 0x22 # rest) = Some (s, rest)"
  by (induction s) (simp_all add: parse_str_escape cons_str_def)

lemma parse_str_dump: "parse_str (tl (dump_str s) @ rest) = Some (s, rest)"
  by (simp add: dump_str_def parse_str_body)

lemma dump_str_hd: "dump_str s = CHR 0x22 # tl (dump_str s)"
  by (simp add: dump_str_def)

lemma skip_ws_indent [simp]: "skip_ws (newline_indent l @ cs) = skip_ws cs"
  by (simp add: skip_ws_def newline_indent_def is_ws_def dropWhile_append)

lemma skip_ws_space [simp]: "skip_ws (CHR '' '' # cs) = skip_ws cs"
  by (simp add: skip_ws_def is_ws_def)

lemma skip_ws_keep: "\<not> is_ws c \<Longrightarrow> skip_ws (c # cs) = c # cs"
  by (simp add: skip_ws_def)

lemma skip_ws_Nil [simp]: "skip_ws [] = []"
  by (simp add: skip_ws_def)

lemma starts_append: "starts s \<Longrightarrow> starts (s @ t)"
  by (cases s) (simp_all add: starts_def)

lemma starts_skip: "starts s \<Longrightarrow> skip_ws s = s"
  by (cases s) (simp_all add: starts_def skip_ws_keep)

lemma dump_int_hd:
  "dump_int i \<noteq> [] \<and> (hd (dump_int i) = CHR ''-'' \<or> is_digit (hd (dump_int i)))"
  using digits_all [of "hd (digits (nat i))" "nat i"] digits_nonempty [of "nat i"]
  by (simp add: dump_int_def)

lemma starts_dump_str: "starts (dump_str s)"
  by (simp add: starts_def dump_str_def is_ws_def)

lemma starts_dumps: "starts (dumps_at lvl v)"
proof (cases v)
  case (PInt i)
  then show ?thesis
    using dump_int_hd [of i] by (auto simp add: starts_def is_ws_def is_digit_def)
next
  case (PStr s)
  then show ?thesis by (simp add: starts_dump_str)
qed (simp_all add: starts_def is_ws_def)

lemma starts_items: "xs \<noteq> [] \<Longrightarrow> starts (dump_items lvl xs)"
  by (cases xs) (simp_all add: starts_append starts_dumps)

lemma starts_members: "kvs \<noteq> [] \<Longrightarrow> starts (dump_members lvl kvs)"
  by (cases kvs) (simp_all add: starts_append starts_dump_str)

lemma parse_value_atoms:
  "parse_value (Suc n) (''null'' @ rest) = Some (PNone, rest)"
  "parse_value (Suc n) (''true'' @ rest) = Some (PBool True, rest)"
  "parse_value (Suc n) (''false'' @ rest) = Some (PBool False, rest)"
  "parse_value (Suc n) (''[]'' @ rest) = Some (PList [], rest)"
  "parse_value (Suc n) (''{}'' @ rest) = Some (PDict [], rest)"
  by (simp_all add: skip_ws_keep is_ws_def)

lemma parse_value_str: "parse_value (Suc n) (dump_str s @ rest) = Some (PStr s, rest)"
  using parse_str_dump [of s rest] by (subst dump_str_hd) simp

lemma parse_value_int:
  assumes "stops rest"
  shows "parse_value (Suc n) (dump_int i @ rest) = Some (PInt i, rest)"
proof -
  obtain c cs where cs: "dump_int i = c # cs" and c: "c = CHR ''-'' \<or> is_digit c"
    using dump_int_hd [of i] by (cases "dump_int i") auto
  from c have "c \<noteq> CHR ''n''" "c \<noteq> CHR ''t''" "c \<noteq> CHR ''f''" "c \<noteq> CHR 0x22"
    "c \<noteq> CHR ''[''" "c \<noteq> CHR ''{''"
    by (auto simp add: is_digit_def)
  then have "parse_value (Suc n) (dump_int i @ rest) = parse_int (dump_int i @ rest)"
    by (simp add: cs)
  with assms show ?thesis by (simp add: parse_int_dump)
qed

lemma parse_value_list:
  assumes "starts cs"
  shows "parse_value (Suc n) (CHR ''['' # newline_indent l @ cs)
         = (case parse_items n cs of None \<Rightarrow> None | Some (xs, r) \<Rightarrow> Some (PList xs, r))"
proof -
  obtain d r where cs: "cs = d # r" and d: "d \<noteq> CHR '']''"
    using assms by (cases cs) (auto simp add: starts_def)
  have "skip_ws (newline_indent l @ d # r) = d # r"
    using assms cs by (simp add: starts_skip)
  then show ?thesis unfolding cs using d by simp
qed

lemma parse_value_dict:
  assumes "starts cs"
  shows "parse_value (Suc n) (CHR ''{'' # newline_indent l @ cs)
         = (case parse_members n cs of None \<Rightarrow> None | Some (kvs, r) \<Rightarrow> Some (make_dict kvs, r))"
proof -
  obtain d r where cs: "cs = d # r" and d: "d \<noteq> CHR ''}''"
    using assms by (cases cs) (auto simp add: starts_def)
  have "skip_ws (newline_indent l @ d # r) = d # r"
    using assms cs by (simp add: starts_skip)
  then show ?thesis unfolding cs using d by simp
qed

lemma parse_items_last:
  assumes "parse_value n (X @ newline_indent l @ CHR '']'' # rest)
           = Some (x, newline_indent l @ CHR '']'' # rest)"
  shows "parse_items (Suc n) (X @ newline_indent l @ CHR '']'' # rest) = Some ([x], rest)"
  using assms by (simp add: skip_ws_keep is_ws_def)

lemma parse_items_more:
  assumes "parse_value n (X @ CHR '','' # newline_indent l @ Z)
           = Some (x, CHR '','' # newline_indent l @ Z)"
      and "starts Z"
  shows "parse_items (Suc n) (X @ CHR '','' # newline_indent l @ Z)
         = (case parse_items n Z of None \<Rightarrow> None | Some (xs, r) \<Rightarrow> Some (x # xs, r))"
  using assms by (simp add: skip_ws_keep is_ws_def starts_skip)

lemma parse_members_key:
  assumes "starts V"
  shows "parse_members (Suc n) (dump_str k @ '': '' @ V)
         = (case parse_value n V of
              None \<Rightarrow> None
            | Some (v, r3) \<Rightarrow>
                (case skip_ws r3 of
                   [] \<Rightarrow> None
                 | e # r4 \<Rightarrow>
                     if e = CHR '','' then
                       (case parse_members n (skip_ws r4) of
                          None \<Rightarrow> None
                        | Some (kvs, r5) \<Rightarrow> Some ((k, v) # kvs, r5))
                     else if e = CHR ''}'' then Some ([(k, v)], r4)
                     else None))"
proof -
  have "parse_str (tl (dump_str k) @ '': '' @ V) = Some (k, '': '' @ V)"
    by (rule parse_str_dump)
  moreover have "skip_ws ('': '' @ V) = CHR '':'' # CHR '' '' # V"
    by (simp add: skip_ws_keep is_ws_def)
  moreover have "skip_ws (CHR '' '' # V) = V"
    using assms by (simp add: starts_skip)
  ultimately show ?thesis
    by (subst dump_str_hd) simp
qed

lemma parse_members_last:
  assumes "parse_value n (V @ newline_indent l @ CHR ''}'' # rest)
           = Some (v, newline_indent l @ CHR ''}'' # rest)"
      and "starts V"
  shows "parse_members (Suc n) (dump_str k @ '': '' @ V @ newline_indent l @ CHR ''}'' # rest)
         = Some ([(k, v)], rest)"
  using assms parse_members_key [of "V @ newline_indent l @ CHR ''}'' # rest" n k]
  by (simp add: starts_append skip_ws_keep is_ws_def)

lemma parse_members_more:
  assumes "parse_value n (V @ CHR '','' # newline_indent l @ Z)
           = Some (v, CHR '','' # newline_indent l @ Z)"
      and "starts V" and "starts Z"
  shows "parse_members (Suc n) (dump_str k @ '': '' @ V @ CHR '','' # newline_indent l @ Z)
         = (case parse_members n Z of None \<Rightarrow> None | Some (kvs, r) \<Rightarrow> Some ((k, v) # kvs, r))"
  using assms parse_members_key [of "V @ CHR '','' # newline_indent l @ Z" n k]
  by (simp add: starts_append skip_ws_keep is_ws_def starts_skip)

lemma dict_set_fresh: "k \<notin> fst ` set d \<Longrightarrow> dict_set k v d = d @ [(k, v)]"
  by (induction d) auto

lemma foldl_dict_set:
  "distinct (map fst (d @ kvs)) \<Longrightarrow>
   foldl (\<lambda>d kv. dict_set (fst kv) (snd kv) d) d kvs = d @ kvs"
proof (induction kvs arbitrary: d)
  case Nil
  then show ?case by simp
next
  case (Cons kv kvs)
  from Cons.prems have fresh: "fst kv \<notin> fst ` set d" by auto
  from Cons.prems have "distinct (map fst ((d @ [kv]) @ kvs))" by simp
  then have "foldl (\<lambda>d kv. dict_set (fst kv) (snd kv) d) (d @ [kv]) kvs = (d @ [kv]) @ kvs"
    by (rule Cons.IH)
  then show ?case by (simp add: dict_set_fresh [OF fresh])
qed

lemma make_dict_distinct: "distinct (map fst kvs) \<Longrightarrow> make_dict kvs = PDict kvs"
  using foldl_dict_set [of "[]" kvs] by (simp add: make_dict_def)

lemma stops_simps [simp]:
  "stops []" "stops (CHR '','' # cs)" "stops (newline_indent l @ cs)"
  by (simp_all add: stops_def newline_indent_def)

declare parse_value.simps(2) [simp del] parse_items.simps(2) [simp del]
  parse_members.simps(2) [simp del]

lemma round_trip_aux:
  shows "well_formed v \<Longrightarrow> need v \<le> n \<Longrightarrow> stops rest \<Longrightarrow>
         parse_value n (dumps_at lvl v @ rest) = Some (v, rest)"
    and "well_formed_items xs \<Longrightarrow> xs \<noteq> [] \<Longrightarrow> need_items xs \<le> m \<Longrightarrow>
         parse_items m (dump_items lvl1 xs @ newline_indent l1 @ CHR '']'' # rest1)
         = Some (xs, rest1)"
    and "well_formed_members kvs \<Longrightarrow> kvs \<noteq> [] \<Longrightarrow> need_members kvs \<le> k \<Longrightarrow>
         parse_members k (dump_members lvl2 kvs @ newline_indent l2 @ CHR ''}'' # rest2)
         = Some (kvs, rest2)"
proof (induction lvl v and lvl1 xs and lvl2 kvs
       arbitrary: n rest and m l1 rest1 and k l2 rest2
       rule: dumps_at_dump_items_dump_members.induct)
  case (1 lvl)
  then obtain n' where "n = Suc n'" by (cases n) auto
  then show ?case by (simp add: parse_value_atoms [simplified])
next
  case (2 lvl b)
  then obtain n' where "n = Suc n'" by (cases n) auto
  then show ?case by (cases b) (simp_all add: parse_value_atoms [simplified])
next
  case (3 lvl i)
  then obtain n' where "n = Suc n'" by (cases n) auto
  with 3 show ?case by (simp add: parse_value_int)
next
  case (4 lvl s)
  then obtain n' where "n = Suc n'" by (cases n) auto
  then show ?case by (simp add: parse_value_str)
next
  case (5 lvl xs)
  then obtain n' where n: "n = Suc n'" by (cases n) auto
  show ?case
  proof (cases "xs = []")
    case True
    with n show ?thesis by (simp add: parse_value_atoms [simplified])
  next
    case False
    from 5(2,3) n have "well_formed_items xs" "need_items xs \<le> n'" by simp_all
    with 5(1) False have
      "parse_items n' (dump_items (Suc lvl) xs @ newline_indent lvl @ CHR '']'' # rest)
       = Some (xs, rest)"
      by simp
    moreover have "starts (dump_items (Suc lvl) xs @ newline_indent lvl @ CHR '']'' # rest)"
      using False by (simp add: starts_append starts_items)
    ultimately show ?thesis
      using False n
        parse_value_list [of "dump_items (Suc lvl) xs @ newline_indent lvl @ CHR '']'' # rest"
          n' "Suc lvl"]
      by simp
  qed
next
  case (6 lvl kvs)
  then obtain n' where n: "n = Suc n'" by (cases n) auto
  show ?case
  proof (cases "kvs = []")
    case True
    with n show ?thesis by (simp add: parse_value_atoms [simplified])
  next
    case False
    from 6(2,3) n have "well_formed_members kvs" "need_members kvs \<le> n'" "distinct (map fst kvs)"
      by simp_all
    with 6(1) False have
      "parse_members n' (dump_members (Suc lvl) kvs @ newline_indent lvl @ CHR ''}'' # rest)
       = Some (kvs, rest)"
      by simp
    moreover have "starts (dump_members (Suc lvl) kvs @ newline_indent lvl @ CHR ''}'' # rest)"
      using False by (simp add: starts_append starts_members)
    ultimately show ?thesis
      using False n \<open>distinct (map fst kvs)\<close>
        parse_value_dict [of "dump_members (Suc lvl) kvs @ newline_indent lvl @ CHR ''}'' # rest"
          n' "Suc lvl"]
      by (simp add: make_dict_distinct)
  qed
next
  case (7 lvl)
  then show ?case by simp
next
  case (8 lvl x xs)
  then obtain m' where m: "m = Suc m'" by (cases m) auto
  from 8(3,5) m have wx: "well_formed x" and nx: "need x \<le> m'" by simp_all
  show ?case
  proof (cases "xs = []")
    case True
    have "parse_value m' (dumps_at lvl x @ newline_indent l1 @ CHR '']'' # rest1)
          = Some (x, newline_indent l1 @ CHR '']'' # rest1)"
      using 8(1) [OF wx nx] by simp
    then show ?thesis
      using True m by (simp add: parse_items_last)
  next
    case False
    let ?Z = "dump_items lvl xs @ newline_indent l1 @ CHR '']'' # rest1"
    from 8(3,5) m have "well_formed_items xs" "need_items xs \<le> m'" by simp_all
    with 8(2) False have rec: "parse_items m' ?Z = Some (xs, rest1)" by simp
    have "parse_value m' (dumps_at lvl x @ CHR '','' # newline_indent lvl @ ?Z)
          = Some (x, CHR '','' # newline_indent lvl @ ?Z)"
      using 8(1) [OF wx nx] by simp
    moreover have "starts ?Z" using False by (simp add: starts_append starts_items)
    ultimately show ?thesis
      using False m rec
        parse_items_more [of m' "dumps_at lvl x" lvl ?Z x]
      by simp
  qed
next
  case (9 lvl)
  then show ?case by simp
next
  case (10 lvl kv kvs)
  then obtain k' where k: "k = Suc k'" by (cases k) auto
  from 10(3,5) k have wx: "well_formed (snd kv)" and nx: "need (snd kv) \<le> k'" by simp_all
  have sv: "starts (dumps_at lvl (snd kv))" by (rule starts_dumps)
  show ?case
  proof (cases "kvs = []")
    case True
    have "parse_value k' (dumps_at lvl (snd kv) @ newline_indent l2 @ CHR ''}'' # rest2)
          = Some (snd kv, newline_indent l2 @ CHR ''}'' # rest2)"
      using 10(1) [OF wx nx] by simp
    then show ?thesis
      using True k sv
        parse_members_last [of k' "dumps_at lvl (snd kv)" l2 rest2 "snd kv" "fst kv"]
      by simp
  next
    case False
    let ?Z = "dump_members lvl kvs @ newline_indent l2 @ CHR ''}'' # rest2"
    from 10(3,5) k have "well_formed_members kvs" "need_members kvs \<le> k'" by simp_all
    with 10(2) False have rec: "parse_members k' ?Z = Some (kvs, rest2)" by simp
    have "parse_value k' (dumps_at lvl (snd kv) @ CHR '','' # newline_indent lvl @ ?Z)
          = Some (snd kv, CHR '','' # newline_indent lvl @ ?Z)"
      using 10(1) [OF wx nx] by simp
    moreover have "starts ?Z" using False by (simp add: starts_append starts_members)
    ultimately show ?thesis
      using False k rec sv
        parse_members_more [of k' "dumps_at lvl (snd kv)" lvl ?Z "snd kv" "fst kv"]
      by simp
  qed
qed

lemma dump_int_length: "1 \<le> length (dump_int i)"
  using dump_int_hd [of i] by (cases "dump_int i") simp_all

lemma need_le:
  shows "need v \<le> length (dumps_at lvl v)"
    and "need_items xs \<le> Suc (length (dump_items lvl1 xs))"
    and "need_members kvs \<le> Suc (length (dump_members lvl2 kvs))"
proof (induction lvl v and lvl1 xs and lvl2 kvs
       rule: dumps_at_dump_items_dump_members.induct)
  case (3 lvl i)
  then show ?case using dump_int_length [of i] by simp
next
  case (4 lvl s)
  then show ?case by (simp add: dump_str_def)
next
  case (5 lvl xs)
  then show ?case by (cases "xs = []") (simp_all add: newline_indent_def)
next
  case (6 lvl kvs)
  then show ?case by (cases "kvs = []") (simp_all add: newline_indent_def)
next
  case (8 lvl x xs)
  then show ?case by (cases "xs = []") (simp_all add: newline_indent_def)
next
  case (10 lvl kv kvs)
  then show ?case by (cases "kvs = []") (simp_all add: newline_indent_def)
qed simp_all

lemma py_round_trip: "well_formed v \<Longrightarrow> py_load (py_dumps v) = Some v"
proof -
  assume w: "well_formed v"
  have "need v \<le> Suc (length (dumps_at 0 v))"
    using need_le(1) [of v 0] by simp
  with w have "parse_value (Suc (length (dumps_at 0 v))) (dumps_at 0 v @ []) = Some (v, [])"
    by (intro round_trip_aux(1)) simp_all
  then show ?thesis
    by (simp add: py_load_def py_dumps_def starts_skip [OF starts_dumps])
qed

lemma demo_load_dumps: "well_formed v \<Longrightarrow> demo_load (demo_dumps v) = Some v"
  by (simp add: demo_load_def demo_dumps_def py_round_trip)

lemma demo_dumps_inject:
  assumes "well_formed a" and "well_formed b"
  shows "demo_dumps a = demo_dumps b \<longleftrightarrow> a = b"
proof
  assume "demo_dumps a = demo_dumps b"
  then have "demo_load (demo_dumps a) = demo_load (demo_dumps b)"
    by (rule arg_cong)
  with assms show "a = b"
    by (simp add: demo_load_dumps)
next
  assume "a = b"
  then show "demo_dumps a = demo_dumps b" by (rule arg_cong)
qed

lemmas json_demo_defs = demo_load_dumps demo_dumps_inject

section \<open>The uploader\<close>

text \<open>
  Claim C7. Called with a document path that does not exist on the local file system,
  \<open>eazyml_upload\<close> returns \<open>None\<close> and makes no remote call: the list of calls made is
  the one it started with (and no file is touched).
\<close>

theorem upload_missing_document:
  assumes "document_path \<notin> dom (files w)"
  shows "\<exists>w'. eazyml_upload E token document_path index_name overwrite prefix_name w
               = (Ret PNone, w')
             \<and> calls w' = calls w \<and> files w' = files w"
  using assms by (simp add: eazyml_upload_def io_defs)

theorem upload_missing_document_witness:
  "''report.pdf'' \<notin> dom (files (world0 []))
   \<and> (\<exists>w'. eazyml_upload (demo_env accepting) (PStr ''tok-1'') ''report.pdf'' (PStr ''idx'')
               (PStr ''no'') ''EazyML'' (world0 []) = (Ret PNone, w')
             \<and> calls w' = calls (world0 []) \<and> files w' = files (world0 []))"
  using upload_missing_document [of "''report.pdf''" "world0 []" "demo_env accepting"
      "PStr ''tok-1''" "PStr ''idx''" "PStr ''no''" "''EazyML''"]
  by (simp add: world0_def)

text \<open>
  Claim C1. With the document present, no cache file, and a remote answer whose
  \<open>success\<close> is not \<open>True\<close>, the claim expects a falsy return value and the server's message
  on standard output, for every answer shaped \<open>{success, message}\<close>. Run on such an answer
  the function prints the message and sets its result to \<open>False\<close>, and then the summary
  line shared with the success path (line 66) reads \<^verbatim>\<open>resp["indexed"]\<close>, which the answer
  does not have: the call ends in \<^verbatim>\<open>KeyError\<close> instead of returning.
\<close>

theorem upload_refused_raises:
  "eazyml_upload (demo_env refusing) (PStr ''tok-1'') ''report.pdf'' (PStr ''idx'') (PStr ''no'')
     ''EazyML'' (world0 [(''report.pdf'', ''text'')])
   = (Raise (KeyError ''indexed''),
      \<lparr>files = map_of [(''report.pdf'', ''text'')],
       stdout = [Out ''Indexing the document ...'' [], Out ''%s'' [failure],
                 Out ''Upload document error: %s'' [PStr ''Invalid token''],
                 Out ''Indexing document time: %.2f secs'' []],
       calls = [Ez_upload_document (PStr ''tok-1'') ''report.pdf'' (PStr ''idx'')
                  (PDict [(''overwrite'', PStr ''no'')])]\<rparr>)"
  by (simp add: upload_defs io_defs demo_defs)

text \<open>The same holds for every refusal that carries no \<open>indexed\<close> field, and the intended
  result \<open>False\<close> is returned only when the refusal happens to carry one (and the global
  \<^verbatim>\<open>query\<close> is bound).\<close>

lemma upload_refused_without_indexed:
  assumes "document_path \<in> dom (files w)"
      and "prefix_name @ ''_'' @ UPLOAD_FILE \<notin> dom (files w)"
      and "remote E (Ez_upload_document token document_path index_name
                      (PDict [(''overwrite'', overwrite)])) = PDict d"
      and "map_of d ''success'' = Some ok" and "ok \<noteq> PBool True"
      and "map_of d ''message'' = Some msg"
      and "map_of d ''indexed'' = None"
  shows "\<exists>w'. eazyml_upload E token document_path index_name overwrite prefix_name w
               = (Raise (KeyError ''indexed''), w')
             \<and> Out ''Upload document error: %s'' [msg] \<in> set (stdout w')"
  using assms by (simp add: upload_defs io_defs is_True_def)

lemma upload_refused_with_indexed:
  assumes "document_path \<in> dom (files w)"
      and "prefix_name @ ''_'' @ UPLOAD_FILE \<notin> dom (files w)"
      and "remote E (Ez_upload_document token document_path index_name
                      (PDict [(''overwrite'', overwrite)])) = PDict d"
      and "map_of d ''success'' = Some ok" and "ok \<noteq> PBool True"
      and "map_of d ''message'' = Some msg"
      and "map_of d ''indexed'' = Some ix"
      and "query_global E = Some q"
  shows "\<exists>w'. eazyml_upload E token document_path index_name overwrite prefix_name w
               = (Ret (PBool False), w')
             \<and> Out ''Upload document error: %s'' [msg] \<in> set (stdout w')
             \<and> files w' = files w"
  using assms by (simp add: upload_defs io_defs is_True_def)

text \<open>
  Claim C2, as stated: whenever the upload cache file exists, the cached \<open>indexed\<close> value is
  returned. The path check of line 38 runs before the cache is looked at, so with a cache
  file holding \<open>indexed = True\<close> and no document the function returns \<open>None\<close>.
\<close>

theorem upload_cache_without_document:
  "files (world0 [(''EazyML_upload_document.json'', demo_dumps upload_ok)])
     (''EazyML'' @ ''_'' @ UPLOAD_FILE) = Some (demo_dumps upload_ok)
   \<and> demo_load (demo_dumps upload_ok) = Some upload_ok
   \<and> subscript upload_ok ''indexed'' = Inr (PBool True)
   \<and> eazyml_upload (demo_env accepting) (PStr ''tok-1'') ''report.pdf'' (PStr ''idx'')
        (PStr ''no'') ''EazyML'' (world0 [(''EazyML_upload_document.json'', demo_dumps upload_ok)])
      = (Ret PNone,
         \<lparr>files = map_of [(''EazyML_upload_document.json'', demo_dumps upload_ok)],
          stdout = [Out (''Document doesn'' @ [CHR 0x27] @ ''t exist - %s'') [PStr ''report.pdf'']],
          calls = []\<rparr>)"
  by (simp add: upload_defs io_defs demo_defs json_demo_defs)

text \<open>
  Claim C2, amended. Whenever the upload cache file exists, \<open>eazyml_upload\<close> makes no remote
  call; and when moreover the document path exists and the file parses to an object with
  a key \<open>indexed\<close>, it prints the cache notice and returns the value under that key,
  leaving the files as they were.
\<close>

theorem upload_cache_hit:
  assumes "files w (prefix_name @ ''_'' @ UPLOAD_FILE) = Some t"
  shows "calls (snd (eazyml_upload E token document_path index_name overwrite prefix_name w))
           = calls w
         \<and> (document_path \<in> dom (files w) \<and> json_load E t = Some (PDict d)
              \<and> map_of d ''indexed'' = Some v
            \<longrightarrow> eazyml_upload E token document_path index_name overwrite prefix_name w
                  = (Ret v, w\<lparr>stdout := stdout w @
                       [Out ''Returning from cache'' [PStr (prefix_name @ ''_'' @ UPLOAD_FILE)]]\<rparr>))"
  using assms by (auto simp add: upload_defs io_defs split: option.splits sum.splits)

theorem upload_cache_hit_witness:
  "files (world0 [(''report.pdf'', ''text''),
                  (''EazyML_upload_document.json'', demo_dumps upload_ok)])
     (''EazyML'' @ ''_'' @ UPLOAD_FILE) = Some (demo_dumps upload_ok)
   \<and> ''report.pdf'' \<in> dom (files (world0 [(''report.pdf'', ''text''),
                  (''EazyML_upload_document.json'', demo_dumps upload_ok)]))
   \<and> json_load (demo_env accepting) (demo_dumps upload_ok)
       = Some (PDict [(''success'', PBool True), (''indexed'', PBool True)])
   \<and> eazyml_upload (demo_env accepting) (PStr ''tok-1'') ''report.pdf'' (PStr ''idx'')
        (PStr ''no'') ''EazyML''
        (world0 [(''report.pdf'', ''text''),
                 (''EazyML_upload_document.json'', demo_dumps upload_ok)])
      = (Ret (PBool True),
         \<lparr>files = map_of [(''report.pdf'', ''text''),
                           (''EazyML_upload_document.json'', demo_dumps upload_ok)],
          stdout = [Out ''Returning from cache'' [PStr ''EazyML_upload_document.json'']],
          calls = []\<rparr>)"
  using upload_cache_hit [where w = "world0 [(''report.pdf'', ''text''),
                 (''EazyML_upload_document.json'', demo_dumps upload_ok)]"
      and prefix_name = "''EazyML''" and t = "demo_dumps upload_ok"
      and E = "demo_env accepting" and document_path = "''report.pdf''"
      and d = "[(''success'', PBool True), (''indexed'', PBool True)]" and v = "PBool True"
      and token = "PStr ''tok-1''" and index_name = "PStr ''idx''" and overwrite = "PStr ''no''"]
  by (simp add: demo_defs json_demo_defs)

section \<open>The extractor\<close>

text \<open>
  Claim C3, as stated: with no extract cache file, every remote answer whose \<open>success\<close>
  is not \<open>True\<close> makes \<open>eazyml_extract_information\<close> return \<open>(None, None)\<close>. The
  else branch first prints \<^verbatim>\<open>resp["message"]\<close> (line 112): on a refusal that carries no
  message the call ends in \<^verbatim>\<open>KeyError\<close> and returns nothing.
\<close>

theorem extract_refusal_without_message:
  "eazyml_extract_information (demo_env refusing_silently) (PStr ''tok-1'')
     (PStr ''extract_information'') (PStr ''capital of France'') (PStr ''idx'') ''EazyML''
     (world0 [])
   = (Raise (KeyError ''message''),
      \<lparr>files = map_of [],
       stdout = [Out ''Extracting Information '' []],
       calls = [Ez_extract_information (PStr ''tok-1'') (PStr ''capital of France'')
                  (PStr ''idx'') (PDict [])]\<rparr>)"
  by (simp add: extract_defs io_defs demo_defs)

text \<open>
  Claim C3, amended. With no extract cache file and a remote answer whose \<open>success\<close> is
  present and not \<open>True\<close>, \<open>eazyml_extract_information\<close> leaves the files as they were;
  and when the answer also has the field \<open>message\<close> (the shape \<open>{success, message}\<close> of
  the remote contract), it returns the pair \<open>(None, None)\<close>, the world afterwards
  differing from the one before only by two printed lines and the recorded remote call.
\<close>

theorem extract_refused:
  assumes "api_name = PStr ''extract_information''"
      and "prefix_name @ ''_'' @ EXTRACT_FILE \<notin> dom (files w)"
      and "subscript (remote E (Ez_extract_information token query index_name (PDict [])))
             ''success'' = Inr ok"
      and "ok \<noteq> PBool True"
  shows "files (snd (eazyml_extract_information E token api_name query index_name prefix_name w))
           = files w
       \<and> (subscript (remote E (Ez_extract_information token query index_name (PDict [])))
             ''message'' = Inr msg
          \<longrightarrow> eazyml_extract_information E token api_name query index_name prefix_name w
              = (Ret (PNone, PNone),
                 w\<lparr>stdout := stdout w @ [Out ''Extracting Information '' [],
                                          Out ''Information Extraction error: %s'' [msg]],
                   calls := calls w @ [Ez_extract_information token query index_name
                                        (PDict [])]\<rparr>))"
  using assms by (auto simp add: extract_defs io_defs is_True_def split: sum.splits)

theorem extract_refused_witness:
  "''EazyML'' @ ''_'' @ EXTRACT_FILE \<notin> dom (files (world0 []))
   \<and> subscript (remote (demo_env refusing) (Ez_extract_information (PStr ''tok-1'')
        (PStr ''capital of France'') (PStr ''idx'') (PDict []))) ''success'' = Inr (PBool False)
   \<and> PBool False \<noteq> PBool True
   \<and> subscript (remote (demo_env refusing) (Ez_extract_information (PStr ''tok-1'')
        (PStr ''capital of France'') (PStr ''idx'') (PDict []))) ''message''
      = Inr (PStr ''Invalid token'')
   \<and> eazyml_extract_information (demo_env refusing) (PStr ''tok-1'')
        (PStr ''extract_information'') (PStr ''capital of France'') (PStr ''idx'') ''EazyML''
        (world0 [])
      = (Ret (PNone, PNone),
         \<lparr>files = map_of [],
          stdout = [Out ''Extracting Information '' [],
                    Out ''Information Extraction error: %s'' [PStr ''Invalid token'']],
          calls = [Ez_extract_information (PStr ''tok-1'') (PStr ''capital of France'')
                     (PStr ''idx'') (PDict [])]\<rparr>)"
  using extract_refused [where api_name = "PStr ''extract_information''"
      and prefix_name = "''EazyML''" and w = "world0 []" and E = "demo_env refusing"
      and token = "PStr ''tok-1''" and query = "PStr ''capital of France''"
      and index_name = "PStr ''idx''" and ok = "PBool False" and msg = "PStr ''Invalid token''"]
  by (simp add: demo_defs)

text \<open>
  Claim C9. In the cache branch of \<open>eazyml_extract_information\<close> (the extract cache file
  exists and parses to an object), the local \<^verbatim>\<open>answer\<close> is bound only when the object has
  the key \<open>answer\<close>: with the key the call returns \<open>(resp["answer"], resp)\<close>, without it
  the read of \<^verbatim>\<open>answer\<close> at line 99 raises \<^verbatim>\<open>UnboundLocalError\<close>. Either way the cache
  notice is printed and nothing else changes. (\<open>map_of d ''answer''\<close> is \<open>None\<close> exactly
  when the key is absent.)
\<close>

theorem extract_cache_branch:
  assumes "api_name = PStr ''extract_information''"
      and "files w (prefix_name @ ''_'' @ EXTRACT_FILE) = Some t"
      and "json_load E t = Some (PDict d)"
  shows "eazyml_extract_information E token api_name query index_name prefix_name w
         = (case map_of d ''answer'' of
              Some a \<Rightarrow> Ret (a, PDict d)
            | None \<Rightarrow> Raise (UnboundLocalError ''answer''),
            w\<lparr>stdout := stdout w @ [Out ''Returning from cache''
                                       [PStr (prefix_name @ ''_'' @ EXTRACT_FILE)]]\<rparr>)"
proof (cases "map_of d ''answer''")
  case None
  then have "''answer'' \<notin> fst ` set d"
    by (simp add: map_of_eq_None_iff)
  with None assms show ?thesis
    by (simp add: extract_defs io_defs domI)
next
  case (Some a)
  then have "''answer'' \<in> fst ` set d"
    by (metis map_of_eq_None_iff option.distinct(1))
  with Some assms show ?thesis
    by (simp add: extract_defs io_defs domI)
qed

theorem extract_cache_branch_witness:
  "files (world0 [(''EazyML_extract_information.json'', demo_dumps extract_ok)])
     (''EazyML'' @ ''_'' @ EXTRACT_FILE) = Some (demo_dumps extract_ok)
   \<and> json_load (demo_env accepting) (demo_dumps extract_ok)
      = Some (PDict [(''success'', PBool True), (''answer'', PStr ''Paris'')])
   \<and> eazyml_extract_information (demo_env accepting) (PStr ''tok-1'')
        (PStr ''extract_information'') (PStr ''capital of France'') (PStr ''idx'') ''EazyML''
        (world0 [(''EazyML_extract_information.json'', demo_dumps extract_ok)])
      = (Ret (PStr ''Paris'', PDict [(''success'', PBool True), (''answer'', PStr ''Paris'')]),
         \<lparr>files = map_of [(''EazyML_extract_information.json'', demo_dumps extract_ok)],
          stdout = [Out ''Returning from cache'' [PStr ''EazyML_extract_information.json'']],
          calls = []\<rparr>)"
  using extract_cache_branch [where api_name = "PStr ''extract_information''"
      and w = "world0 [(''EazyML_extract_information.json'', demo_dumps extract_ok)]"
      and prefix_name = "''EazyML''" and t = "demo_dumps extract_ok"
      and E = "demo_env accepting"
      and d = "[(''success'', PBool True), (''answer'', PStr ''Paris'')]"
      and token = "PStr ''tok-1''" and query = "PStr ''capital of France''"
      and index_name = "PStr ''idx''"]
  by (simp add: demo_defs json_demo_defs)

text \<open>A cached object without the key: the call raises.\<close>

lemma extract_cache_without_answer:
  "eazyml_extract_information (demo_env accepting) (PStr ''tok-1'')
     (PStr ''extract_information'') (PStr ''capital of France'') (PStr ''idx'') ''EazyML''
     (world0 [(''EazyML_extract_information.json'', demo_dumps extract_no_answer)])
   = (Raise (UnboundLocalError ''answer''),
      \<lparr>files = map_of [(''EazyML_extract_information.json'', demo_dumps extract_no_answer)],
       stdout = [Out ''Returning from cache'' [PStr ''EazyML_extract_information.json'']],
       calls = []\<rparr>)"
  by (simp add: extract_defs io_defs demo_defs json_demo_defs)

section \<open>The authenticator\<close>

text \<open>
  Claim C5. When the remote authentication answer has \<open>success\<close> equal to \<open>True\<close> (and
  carries a token), \<open>eazyml_auth\<close> returns that token after exactly one remote call. With
  \<open>store_info\<close> set, the auth file then holds the JSON text of the object
  \<open>{username, api_key, password}\<close> built from the arguments as they were passed; with
  \<open>store_info\<close> not set, the files are unchanged.
\<close>

theorem auth_accepted:
  assumes "remote E (if password \<noteq> PNone then Ez_auth_password username password
                     else Ez_auth_api_key username api_key) = PDict d"
      and "map_of d ''success'' = Some (PBool True)"
      and "map_of d ''token'' = Some tok"
  shows "\<exists>w'. eazyml_auth E username api_key password store_info w = (Ret tok, w')
           \<and> files w' = (if store_info
                          then (files w)(AUTH_FILE \<mapsto> json_dumps E
                                 (PDict [(''username'', username), (''api_key'', api_key),
                                         (''password'', password)]))
                          else files w)
           \<and> calls w' = calls w @ [if password \<noteq> PNone then Ez_auth_password username password
                                    else Ez_auth_api_key username api_key]"
  using assms
  by (cases "password = PNone") (simp_all add: eazyml_auth_def Let_def io_defs is_True_def)

theorem auth_accepted_witness:
  "remote (demo_env accepting) (if PNone \<noteq> PNone then Ez_auth_password (PStr ''ann'') PNone
                                else Ez_auth_api_key (PStr ''ann'') (PStr ''key-1''))
     = PDict [(''success'', PBool True), (''token'', PStr ''tok-1'')]
   \<and> (\<exists>w'. eazyml_auth (demo_env accepting) (PStr ''ann'') (PStr ''key-1'') PNone True (world0 [])
              = (Ret (PStr ''tok-1''), w')
          \<and> files w' = (files (world0 []))(AUTH_FILE \<mapsto> demo_dumps credentials)
          \<and> calls w' = [Ez_auth_api_key (PStr ''ann'') (PStr ''key-1'')])"
  using auth_accepted [where E = "demo_env accepting" and password = PNone
      and username = "PStr ''ann''" and api_key = "PStr ''key-1''"
      and d = "[(''success'', PBool True), (''token'', PStr ''tok-1'')]"
      and tok = "PStr ''tok-1''" and store_info = True and w = "world0 []"]
  by (simp add: demo_env_def world0_def auth_ok_def credentials_def)

section \<open>The flow\<close>

text \<open>Once authentication has produced a token and the configuration block has not returned,
  \<open>flow\<close> is the upload block followed, unless that block returns, by the extraction block.\<close>

lemma flow_after_config:
  assumes "flow_auth E username api_key w = (Ret (Some token), w1)"
      and "flow_config E token config_file w1 = (Ret True, w2)"
  shows "flow E username api_key config_file prefix_name document_path index_name overwrite
           api_name query w
         = (case flow_upload E token document_path index_name overwrite prefix_name w2 of
              (Ret go, w3) \<Rightarrow> if go then flow_extract E token api_name query index_name prefix_name w3
                              else (Ret (), w3)
            | (Raise e, w3) \<Rightarrow> (Raise e, w3))"
  using assms by (simp add: flow_def bnd_def ret_def split: prod.splits res.splits)











text \<open>
  Claim C4. The claim expects \<open>flow\<close> to stop as soon as a step fails, authentication
  included. \<open>flow\<close> never looks at the token it gets from \<open>eazyml_auth\<close>: when the service
  refuses the credentials, the token is \<open>None\<close> and the later blocks run with it. In the
  run below the extraction endpoint is called with the token \<open>None\<close> after the
  authentication error was printed.
\<close>

theorem flow_continues_after_failed_auth:
  "flow (demo_env refusing) (PStr ''ann'') (PStr ''key-1'') PNone ''EazyML'' None (PStr ''idx'')
     (PStr ''no'') (PStr ''extract_information'') (PStr ''capital of France'') (world0 [])
   = (Ret (),
      \<lparr>files = map_of [],
       stdout = [Out ''Authentication error: %s'' [PStr ''Invalid token''],
                 Out ''Extracting Information '' [],
                 Out ''Information Extraction error: %s'' [PStr ''Invalid token'']],
       calls = [Ez_auth_api_key (PStr ''ann'') (PStr ''key-1''),
                Ez_extract_information PNone (PStr ''capital of France'') (PStr ''idx'')
                  (PDict [])]\<rparr>)"
  by (simp add: flow_defs eazyml_auth_def extract_defs io_defs demo_defs)

text \<open>In general: a refused authentication returns \<open>None\<close>, and the authentication block
  of \<open>flow\<close> hands that \<open>None\<close> on as the token instead of returning.\<close>

lemma auth_refused:
  assumes "remote E (if password \<noteq> PNone then Ez_auth_password username password
                     else Ez_auth_api_key username api_key) = PDict d"
      and "map_of d ''success'' = Some ok" and "ok \<noteq> PBool True"
      and "map_of d ''message'' = Some msg"
  shows "eazyml_auth E username api_key password store_info w
         = (Ret PNone,
            w\<lparr>stdout := stdout w @ [Out ''Authentication error: %s'' [msg]],
              calls := calls w @ [if password \<noteq> PNone then Ez_auth_password username password
                                  else Ez_auth_api_key username api_key]\<rparr>)"
  using assms
  by (cases "password = PNone") (simp_all add: eazyml_auth_def Let_def io_defs is_True_def)

lemma flow_auth_passes_None_on:
  assumes "truthy username" and "truthy api_key"
      and "remote E (Ez_auth_api_key username api_key) = PDict d"
      and "map_of d ''success'' = Some ok" and "ok \<noteq> PBool True"
      and "map_of d ''message'' = Some msg"
  shows "flow_auth E username api_key w
         = (Ret (Some PNone),
            w\<lparr>stdout := stdout w @ [Out ''Authentication error: %s'' [msg]],
              calls := calls w @ [Ez_auth_api_key username api_key]\<rparr>)"
  using assms auth_refused [where password = PNone and E = E and username = username
      and api_key = api_key and d = d and ok = ok and msg = msg and store_info = True and w = w]
  by (simp add: flow_auth_def bnd_def ret_def)

text \<open>The part of the claim about the uploader holds: a falsy result of \<open>eazyml_upload\<close> ends
  \<open>flow\<close> in the world the uploader left, so the extraction block is not run.\<close>

lemma flow_stops_after_falsy_upload:
  assumes "flow_auth E username api_key w = (Ret (Some token), w1)"
      and "flow_config E token config_file w1 = (Ret True, w2)"
      and "document_path = Some p" and "p \<noteq> []" and "truthy index_name"
      and "eazyml_upload E token p index_name overwrite prefix_name w2 = (Ret index, w3)"
      and "\<not> truthy index"
  shows "flow E username api_key config_file prefix_name document_path index_name overwrite
           api_name query w = (Ret (), w3)"
  using assms(3-7)
  by (simp add: flow_after_config [OF assms(1,2)] flow_upload_def bnd_def ret_def)

text \<open>The pair \<open>(None, None)\<close> that a failed extraction returns is a non-empty tuple, hence
  true: the check of line 231 does not fire on it, and \<open>flow\<close> ends because the extraction
  block is its last one.\<close>

lemma failed_extraction_is_truthy: "truthy_tuple2 (PNone, PNone)"
  by (simp add: truthy_tuple2_def)

section \<open>The persisted files\<close>







text \<open>A prefix that names a directory which does not exist: the answer of the service is
  accepted, and the write of the cache file raises.\<close>

lemma upload_into_missing_directory:
  "eazyml_upload (demo_env accepting) (PStr ''tok-1'') ''report.pdf'' (PStr ''idx'') (PStr ''no'')
     ''out/run1'' (world0 [(''report.pdf'', ''text'')])
   = (Raise (FileNotFoundError ''out/run1_upload_document.json''),
      \<lparr>files = map_of [(''report.pdf'', ''text'')],
       stdout = [Out ''Indexing the document ...'' [], Out ''%s'' [upload_ok],
                 Out ''The document is indexed successfully to EazyML from path: %s''
                   [PStr ''report.pdf'']],
       calls = [Ez_upload_document (PStr ''tok-1'') ''report.pdf'' (PStr ''idx'')
                  (PDict [(''overwrite'', PStr ''no'')])]\<rparr>)"
  by (simp add: upload_defs io_defs demo_defs can_create_def dirname_def)

section \<open>Writing a cache file and reading it back\<close>





end
